theory Spec2Isabelle
  imports Complex_Main "HOL-Library.Log_Nat"
begin

section \<open>Constants of \<^verbatim>\<open>play.py\<close>\<close>

text \<open>
  The script is Python 2 (bare \<^verbatim>\<open>print\<close> statements, \<^verbatim>\<open>unicode\<close>): integers are
  unbounded and \<^verbatim>\<open>/\<close> on two integers is floor division.
  \<^verbatim>\<open>
  LIGHT = 255
  UH_LED_COUNT = 64
  UH_LED_LINE_COUNT = int(math.sqrt(UH_LED_COUNT))
  WORDS_PER_MINUTE = 120
  \<close>
  \<^verbatim>\<open>math.sqrt(64)\<close> is exactly \<^verbatim>\<open>8.0\<close>, so the line count is 8.
\<close>

definition LIGHT :: int where
  "LIGHT = 255"

definition UH_LED_COUNT :: int where
  "UH_LED_COUNT = 64"

definition UH_LED_LINE_COUNT :: int where
  "UH_LED_LINE_COUNT = 8"

definition WORDS_PER_MINUTE :: int where
  "WORDS_PER_MINUTE = 120"

section \<open>Python values\<close>

text \<open>
  Exceptions are values: every function that can raise returns \<open>error + 'a\<close>, with
  \<open>Inl\<close> for the exception.
\<close>

datatype error =
  ValueError | OverflowError | ZeroDivisionError | NameError | IOError | XMLSyntaxError

subsection \<open>Floats\<close>

text \<open>
  A Python \<^verbatim>\<open>float\<close> is an IEEE 754 binary64 number. A finite float is modelled by the
  rational number it denotes, the two infinities and NaN are values of their own. The two
  zeros are one value \<open>Finite 0\<close>: no operation used by the script tells them apart.
\<close>

datatype pyfloat = Finite rat | PosInf | NegInf | NaN

text \<open>
  \<open>flog2 a\<close> is the binary exponent of a positive rational \<open>a\<close>, that is the
  integer \<open>E\<close> with \<open>2 powi E \<le> a < 2 powi (E + 1)\<close>. It is computed from the
  bit lengths of numerator and denominator, which determine it up to one.
\<close>

definition flog2 :: "rat \<Rightarrow> int" where
  "flog2 a = (case quotient_of a of (n, d) \<Rightarrow>
     let k = int (floorlog 2 (nat n)) - int (floorlog 2 (nat d))
     in if 2 powi k \<le> a then k else k - 1)"

definition round_half_even :: "rat \<Rightarrow> int" where
  "round_half_even q =
     (let f = \<lfloor>q\<rfloor>; r = q - of_int f
      in if r < 1 / 2 then f else if 1 / 2 < r then f + 1
         else if even f then f else f + 1)"

text \<open>
  Rounding of an exact result to binary64, to nearest with ties to even: 53 significant
  bits, least exponent \<open>- 1074\<close> (subnormal numbers), overflow to an infinity when the
  rounded magnitude reaches \<open>2 ^ 1024\<close>.
\<close>

definition round64 :: "rat \<Rightarrow> pyfloat" where
  "round64 x =
     (if x = 0 then Finite 0
      else let a = \<bar>x\<bar>;
               e = max (flog2 a - 52) (- 1074);
               m = round_half_even (a / 2 powi e);
               r = of_int m * 2 powi e
           in if 2 ^ 1024 \<le> r then (if 0 < x then PosInf else NegInf)
              else Finite (if 0 < x then r else - r))"

fun float_neg :: "pyfloat \<Rightarrow> pyfloat" where
  "float_neg (Finite x) = Finite (- x)"
| "float_neg PosInf = NegInf"
| "float_neg NegInf = PosInf"
| "float_neg NaN = NaN"

text \<open>\<^verbatim>\<open>abs(x)\<close>\<close>

fun float_abs :: "pyfloat \<Rightarrow> pyfloat" where
  "float_abs (Finite x) = Finite \<bar>x\<bar>"
| "float_abs PosInf = PosInf"
| "float_abs NegInf = PosInf"
| "float_abs NaN = NaN"

text \<open>\<^verbatim>\<open>x * y\<close> on floats: the exact product, rounded.\<close>

fun float_mul :: "pyfloat \<Rightarrow> pyfloat \<Rightarrow> pyfloat" where
  "float_mul (Finite x) (Finite y) = round64 (x * y)"
| "float_mul NaN y = NaN"
| "float_mul x NaN = NaN"
| "float_mul (Finite x) y = (if x = 0 then NaN else if 0 < x then y else float_neg y)"
| "float_mul x (Finite y) = (if y = 0 then NaN else if 0 < y then x else float_neg x)"
| "float_mul x y = (if x = y then PosInf else NegInf)"

text \<open>\<^verbatim>\<open>x / y\<close> on floats: a zero divisor raises, also for an infinite or NaN dividend.\<close>

fun float_truediv :: "pyfloat \<Rightarrow> pyfloat \<Rightarrow> error + pyfloat" where
  "float_truediv (Finite x) (Finite y) =
     (if y = 0 then Inl ZeroDivisionError else Inr (round64 (x / y)))"
| "float_truediv x (Finite y) =
     (if y = 0 then Inl ZeroDivisionError
      else if x = NaN then Inr NaN
      else if 0 < y then Inr x else Inr (float_neg x))"
| "float_truediv NaN y = Inr NaN"
| "float_truediv x NaN = Inr NaN"
| "float_truediv (Finite x) y = Inr (Finite 0)"
| "float_truediv x y = Inr NaN"

text \<open>
  Comparisons. Every comparison with NaN is false; a float is compared with an integer by
  value.
\<close>

fun float_lt :: "pyfloat \<Rightarrow> pyfloat \<Rightarrow> bool" where
  "float_lt NaN y = False"
| "float_lt x NaN = False"
| "float_lt (Finite x) (Finite y) = (x < y)"
| "float_lt NegInf y = (y \<noteq> NegInf)"
| "float_lt x PosInf = (x \<noteq> PosInf)"
| "float_lt x y = False"

definition float_gt :: "pyfloat \<Rightarrow> pyfloat \<Rightarrow> bool" where
  "float_gt x y = float_lt y x"

definition float_eq :: "pyfloat \<Rightarrow> pyfloat \<Rightarrow> bool" where
  "float_eq x y = (x \<noteq> NaN \<and> x = y)"

text \<open>
  \<^verbatim>\<open>float(n)\<close> for an integer \<open>n\<close> rounds to the nearest float and raises
  \<^verbatim>\<open>OverflowError\<close> when \<open>n\<close> is too large.
\<close>

definition py_float :: "int \<Rightarrow> error + pyfloat" where
  "py_float n = (case round64 (of_int n) of Finite r \<Rightarrow> Inr (Finite r) | _ \<Rightarrow> Inl OverflowError)"

text \<open>
  \<^verbatim>\<open>math.ceil(x)\<close> returns a float in Python 2; the ceiling of a finite float is itself
  a float, so no rounding takes place.
\<close>

fun math_ceil :: "pyfloat \<Rightarrow> pyfloat" where
  "math_ceil (Finite x) = Finite (of_int \<lceil>x\<rceil>)"
| "math_ceil x = x"

text \<open>\<^verbatim>\<open>int(x)\<close> truncates towards zero and raises on infinities and NaN.\<close>

fun py_int :: "pyfloat \<Rightarrow> error + int" where
  "py_int (Finite x) = Inr (if 0 \<le> x then \<lfloor>x\<rfloor> else \<lceil>x\<rceil>)"
| "py_int NaN = Inl ValueError"
| "py_int x = Inl OverflowError"

subsection \<open>Strings\<close>

text \<open>
  Text is a \<^typ>\<open>string\<close>, a list of characters with codes below 256. \<open>isspace\<close> is
  the white space of \<^verbatim>\<open>unicode.isspace\<close> among these; \<^verbatim>\<open>strip()\<close>, \<^verbatim>\<open>split()\<close>
  without arguments and \<^verbatim>\<open>sep.join(xs)\<close> are the string methods the script calls.
  A text node that is pure ASCII reaches the script as a byte string, whose
  \<^verbatim>\<open>strip()\<close> leaves the codes \<open>0x1C\<close> to \<open>0x1F\<close> in place; no XML 1.0 document
  holds these characters, so on text nodes the two notions of white space agree. None of
  the properties below depends on which characters are white space, except the evaluations
  on sample texts, which hold blanks and line feeds only.
\<close>

definition isspace :: "char \<Rightarrow> bool" where
  "isspace c = (c \<in> set [CHR 0x09, CHR 0x0A, CHR 0x0B, CHR 0x0C, CHR 0x0D,
     CHR 0x1C, CHR 0x1D, CHR 0x1E, CHR 0x1F, CHR 0x20, CHR 0x85, CHR 0xA0])"

definition str_strip :: "string \<Rightarrow> string" where
  "str_strip s = rev (dropWhile isspace (rev (dropWhile isspace s)))"

text \<open>
  \<open>split_from w s\<close> scans \<open>s\<close> with the current word \<open>w\<close>: white space closes a
  non-empty word, runs of white space produce no empty words.
\<close>

fun split_from :: "string \<Rightarrow> string \<Rightarrow> string list" where
  "split_from w [] = (if w = [] then [] else [w])"
| "split_from w (c # cs) =
     (if isspace c then (if w = [] then split_from [] cs else w # split_from [] cs)
      else split_from (w @ [c]) cs)"

definition str_split :: "string \<Rightarrow> string list" where
  "str_split s = split_from [] s"

fun str_join :: "string \<Rightarrow> string list \<Rightarrow> string" where
  "str_join sep [] = []"
| "str_join sep [x] = x"
| "str_join sep (x # y # ys) = x @ sep @ str_join sep (y # ys)"

section \<open>The outside world\<close>

text \<open>
  The libraries the script calls are not part of it and are parameters of the model:
  \<^item> \<open>etree_parse path\<close> stands for \<^verbatim>\<open>etree.parse(xml_path)\<close> followed by the two XPath
    queries: it raises, or gives for every selected \<^verbatim>\<open>tei:sp\<close> element (those with a
    \<^verbatim>\<open>tei:speaker\<close> child, in document order) the list of its descendant text nodes;
  \<^item> \<open>pattern_sentiment text\<close> is \<^verbatim>\<open>sentiment(text)[0]\<close> of \<^verbatim>\<open>pattern.en\<close>;
  \<^item> \<open>vader_compound text\<close> is
    \<^verbatim>\<open>SentimentIntensityAnalyzer().polarity_scores(text)['compound']\<close>;
  \<^item> \<open>uh_imported\<close> tells whether \<^verbatim>\<open>import unicornhat as uh\<close> succeeded; when it
    did not, the \<^verbatim>\<open>ImportError\<close> is swallowed and the name \<^verbatim>\<open>uh\<close> is unbound.
\<close>

record world =
  etree_parse :: "string \<Rightarrow> error + string list list"
  pattern_sentiment :: "string \<Rightarrow> error + pyfloat"
  vader_compound :: "string \<Rightarrow> error + pyfloat"
  uh_imported :: bool

text \<open>
  What a run does to the outside is a trace of events: the three calls into the LED
  driver, the sleep, and the three kinds of \<^verbatim>\<open>print\<close> statement. An effectful function
  returns the events it performed and the exception that ended it, if any.
\<close>

datatype event =
  Brightness pyfloat
| SetPixel int int int int int
| Show
| Sleep pyfloat
| PrintSymbol char
| PrintNewline
| PrintTrace int string pyfloat int pyfloat

type_synonym effect = "event list \<times> error option"

fun is_hardware :: "event \<Rightarrow> bool" where
  "is_hardware (Brightness b) = True"
| "is_hardware (SetPixel x y r g b) = True"
| "is_hardware Show = True"
| "is_hardware ev = False"

fun is_trace :: "event \<Rightarrow> bool" where
  "is_trace (PrintTrace idx t p i s) = True"
| "is_trace ev = False"

section \<open>Grid position\<close>

text \<open>
  Lines 61 and 62 of \<^verbatim>\<open>_process_text\<close>:
  \<^verbatim>\<open>
  x = (idx % UH_LED_COUNT) % UH_LED_LINE_COUNT
  y = (idx % UH_LED_COUNT) / UH_LED_LINE_COUNT
  \<close>
  Python's \<^verbatim>\<open>%\<close> and Python 2's integer \<^verbatim>\<open>/\<close> round towards minus infinity, as
  \<open>mod\<close> and \<open>div\<close> on \<^typ>\<open>int\<close> do.
\<close>

definition grid_x :: "int \<Rightarrow> int" where
  "grid_x idx = (idx mod UH_LED_COUNT) mod UH_LED_LINE_COUNT"

definition grid_y :: "int \<Rightarrow> int" where
  "grid_y idx = (idx mod UH_LED_COUNT) div UH_LED_LINE_COUNT"

section \<open>The functions of \<^verbatim>\<open>play.py\<close>\<close>

text \<open>
  \<^verbatim>\<open>
  def _get_lines_from_xml(xml_path):
      xml = etree.parse(xml_path)
      sps = xml.xpath('.//tei:sp[tei:speaker]', namespaces=NSMAP)
      lines = []
      for sp in sps:
          text = ' '.join([t.strip() for t in sp.xpath('.//text()')])
          if text:
              lines.append(unicode(text.strip()))
      return lines
  \<close>
  \<open>collect_lines\<close> is the loop; a speech is given by its text nodes.
\<close>

fun collect_lines :: "string list list \<Rightarrow> string list" where
  "collect_lines [] = []"
| "collect_lines (sp # sps) =
     (let text = str_join '' '' (map str_strip sp)
      in (if text \<noteq> [] then [str_strip text] else []) @ collect_lines sps)"

definition get_lines_from_xml :: "world \<Rightarrow> string \<Rightarrow> error + string list" where
  "get_lines_from_xml w xml_path =
     (case etree_parse w xml_path of
        Inl e \<Rightarrow> Inl e
      | Inr sps \<Rightarrow> Inr (collect_lines sps))"

text \<open>
  \<^verbatim>\<open>
  def _get_sentiment(text, nlp):
      if nlp == 'pattern':
          return sentiment(text)[0]
      sid = SentimentIntensityAnalyzer()
      return sid.polarity_scores(text)['compound']
  \<close>
\<close>

definition get_sentiment :: "world \<Rightarrow> string \<Rightarrow> string \<Rightarrow> error + pyfloat" where
  "get_sentiment w text nlp =
     (if nlp = ''pattern'' then pattern_sentiment w text else vader_compound w text)"

text \<open>
  Line 57 of \<^verbatim>\<open>_process_text\<close>:
  \<^verbatim>\<open>intensity = int(math.ceil(abs(polarity) * LIGHT))\<close>.
  The integer \<^verbatim>\<open>LIGHT\<close> is converted to the float \<open>255.0\<close> for the product.
\<close>

definition intensity :: "pyfloat \<Rightarrow> error + int" where
  "intensity polarity =
     py_int (math_ceil (float_mul (float_abs polarity) (Finite (of_int LIGHT))))"

text \<open>
  \<^verbatim>\<open>
  def _get_colour(polarity, intensity):
      if polarity == 0.0:
          return 0, 0, 0
      elif polarity > 0.0:
          return LIGHT - intensity, 0, LIGHT
      else:
          return LIGHT, 0, LIGHT - intensity
  \<close>
\<close>

definition get_colour :: "pyfloat \<Rightarrow> int \<Rightarrow> int \<times> int \<times> int" where
  "get_colour polarity i =
     (if float_eq polarity (Finite 0) then (0, 0, 0)
      else if float_gt polarity (Finite 0) then (LIGHT - i, 0, LIGHT)
      else (LIGHT, 0, LIGHT - i))"

text \<open>
  \<^verbatim>\<open>
  def _get_speed(text):
      words = text.split()
      count = len(words)
      speed = float(count) / WORDS_PER_MINUTE
      return speed
  \<close>
\<close>

definition get_speed :: "string \<Rightarrow> error + pyfloat" where
  "get_speed text =
     (let words = str_split text;
          count = int (length words)
      in case py_float count of
           Inl e \<Rightarrow> Inl e
         | Inr c \<Rightarrow> float_truediv c (Finite (of_int WORDS_PER_MINUTE)))"

text \<open>
  \<^verbatim>\<open>
  def _show_pixel(x, y, r, g, b, speed):
      uh.set_pixel(x, y, r, g, b)
      uh.show()
      time.sleep(speed)
  \<close>
  With \<^verbatim>\<open>uh\<close> unbound the first line raises \<^verbatim>\<open>NameError\<close>.
\<close>

definition show_pixel ::
  "world \<Rightarrow> int \<Rightarrow> int \<Rightarrow> int \<Rightarrow> int \<Rightarrow> int \<Rightarrow> pyfloat \<Rightarrow> effect" where
  "show_pixel w x y r g b speed =
     (if uh_imported w then ([SetPixel x y r g b, Show, Sleep speed], None)
      else ([], Some NameError))"

text \<open>
  \<^verbatim>\<open>
  def _print_pixel(x, polarity, speed):
      symbol = '.'
      if polarity > 0:
          symbol = '+'
      elif polarity < 0:
          symbol = '-'
      print('{} '.format(symbol)),
      if x == UH_LED_LINE_COUNT - 1:
          print
  \<close>
\<close>

definition print_pixel :: "int \<Rightarrow> pyfloat \<Rightarrow> pyfloat \<Rightarrow> effect" where
  "print_pixel x polarity speed =
     (let symbol = (if float_gt polarity (Finite 0) then CHR ''+''
                    else if float_lt polarity (Finite 0) then CHR ''-''
                    else CHR ''.'')
      in ([PrintSymbol symbol] @ (if x = UH_LED_LINE_COUNT - 1 then [PrintNewline] else []),
          None))"

text \<open>
  \<^verbatim>\<open>
  def _process_text(idx, text, nlp, unicorns, verbose):
      polarity = _get_sentiment(text, nlp)
      intensity = int(math.ceil(abs(polarity) * LIGHT))
      r, g, b = _get_colour(polarity, intensity)
      speed = _get_speed(text)
      x = (idx % UH_LED_COUNT) % UH_LED_LINE_COUNT
      y = (idx % UH_LED_COUNT) / UH_LED_LINE_COUNT
      if unicorns:
          _show_pixel(x, y, r, g, b, speed)
      else:
          _print_pixel(x, polarity, speed)
      if verbose:
          print(idx, text, polarity, intensity, speed)
  \<close>
  \<open>display\<close> is the first conditional, \<open>process_text\<close> the whole function.
\<close>

definition display ::
  "world \<Rightarrow> bool \<Rightarrow> int \<Rightarrow> pyfloat \<Rightarrow> int \<Rightarrow> pyfloat \<Rightarrow> effect" where
  "display w unicorns idx polarity i speed =
     (case get_colour polarity i of (r, g, b) \<Rightarrow>
        if unicorns then show_pixel w (grid_x idx) (grid_y idx) r g b speed
        else print_pixel (grid_x idx) polarity speed)"

definition process_text :: "world \<Rightarrow> int \<Rightarrow> string \<Rightarrow> string \<Rightarrow> bool \<Rightarrow> bool \<Rightarrow> effect" where
  "process_text w idx text nlp unicorns verbose =
     (case get_sentiment w text nlp of
        Inl e \<Rightarrow> ([], Some e)
      | Inr polarity \<Rightarrow>
     (case intensity polarity of
        Inl e \<Rightarrow> ([], Some e)
      | Inr i \<Rightarrow>
     (case get_speed text of
        Inl e \<Rightarrow> ([], Some e)
      | Inr speed \<Rightarrow>
     (case display w unicorns idx polarity i speed of
        (evs, Some e) \<Rightarrow> (evs, Some e)
      | (evs, None) \<Rightarrow>
          (evs @ (if verbose then [PrintTrace idx text polarity i speed] else []), None)))))"

text \<open>
  \<^verbatim>\<open>
  def play(xml_path, nlp='nltk', brightness=0.2, no_unicorns=False, verbose=False):
      unicorns = not no_unicorns
      if unicorns:
          uh.brightness(brightness)
      lines = _get_lines_from_xml(xml_path)
      for idx, line in enumerate(lines):
          _process_text(idx, line, nlp, unicorns, verbose)
  \<close>
  \<open>process_lines\<close> is the loop, started at index 0; the first exception ends the run.
\<close>

fun process_lines :: "world \<Rightarrow> int \<Rightarrow> string list \<Rightarrow> string \<Rightarrow> bool \<Rightarrow> bool \<Rightarrow> effect" where
  "process_lines w idx [] nlp unicorns verbose = ([], None)"
| "process_lines w idx (line # lines) nlp unicorns verbose =
     (case process_text w idx line nlp unicorns verbose of
        (evs, Some e) \<Rightarrow> (evs, Some e)
      | (evs, None) \<Rightarrow>
          (case process_lines w (idx + 1) lines nlp unicorns verbose of
             (evs', r) \<Rightarrow> (evs @ evs', r)))"

definition play :: "world \<Rightarrow> string \<Rightarrow> string \<Rightarrow> pyfloat \<Rightarrow> bool \<Rightarrow> bool \<Rightarrow> effect" where
  "play w xml_path nlp brightness no_unicorns verbose =
     (let unicorns = \<not> no_unicorns
      in if unicorns \<and> \<not> uh_imported w then ([], Some NameError)
         else
           (let pre = (if unicorns then [Brightness brightness] else [])
            in case get_lines_from_xml w xml_path of
                 Inl e \<Rightarrow> (pre, Some e)
               | Inr lines \<Rightarrow>
                   (case process_lines w 0 lines nlp unicorns verbose of
                      (evs, r) \<Rightarrow> (pre @ evs, r))))"

section \<open>A sample world\<close>

text \<open>
  A concrete outside world for evaluating the functions: the document
  \<^verbatim>\<open><TEI xmlns="http://www.tei-c.org/ns/1.0"><sp>\n<speaker/>\n</sp></TEI>\<close>,
  whose only speech has an empty speaker and two text nodes, each a single line feed;
  a pattern backend that always answers \<open>0.5\<close> and a VADER backend that always answers
  \<open>0.0\<close>; no LED driver installed.
\<close>

definition demo_world :: world where
  "demo_world =
     \<lparr> etree_parse = (\<lambda>path. Inr [[[CHR 0x0A], [CHR 0x0A]]]),
       pattern_sentiment = (\<lambda>text. Inr (Finite (1 / 2))),
       vader_compound = (\<lambda>text. Inr (Finite 0)),
       uh_imported = False \<rparr>"

section \<open>Properties\<close>

subsection \<open>Grid position\<close>

lemma grid_x_mod8: "grid_x idx = idx mod 8"
  unfolding grid_x_def UH_LED_COUNT_def UH_LED_LINE_COUNT_def
  by (simp add: mod_mod_cancel)

lemma grid_x_range: "0 \<le> grid_x idx \<and> grid_x idx < 8"
  unfolding grid_x_mod8 by simp

lemma grid_y_range: "0 \<le> grid_y idx \<and> grid_y idx < 8"
proof -
  have "0 \<le> idx mod 64" "idx mod 64 < 64" by simp_all
  then show ?thesis
    unfolding grid_y_def UH_LED_COUNT_def UH_LED_LINE_COUNT_def by linarith
qed

lemma grid_y_floor: "grid_y idx = \<lfloor>(of_int (idx mod 64) :: rat) / 8\<rfloor>"
  unfolding grid_y_def UH_LED_COUNT_def UH_LED_LINE_COUNT_def
  using floor_divide_of_int_eq [of "idx mod 64" 8, where ?'a = rat] by simp

lemma grid_period: "grid_x (idx + 64) = grid_x idx \<and> grid_y (idx + 64) = grid_y idx"
  by (simp add: grid_x_def grid_y_def UH_LED_COUNT_def UH_LED_LINE_COUNT_def)

lemma grid_63_64: "(grid_x 63, grid_y 63) = (7, 7) \<and> (grid_x 64, grid_y 64) = (0, 0)"
  by (simp add: grid_x_def grid_y_def UH_LED_COUNT_def UH_LED_LINE_COUNT_def)

text \<open>
  Claim C4. For every speech index the column is \<open>(idx mod 64) mod 8\<close> and the row is
  the floor of \<open>(idx mod 64) / 8\<close>; the position has period 64, index 63 is placed at
  \<open>(7, 7)\<close> and index 64 at \<open>(0, 0)\<close>. The statement holds for every integer
  index, in particular for the non-negative ones \<^verbatim>\<open>enumerate\<close> produces.
\<close>

theorem grid_position:
  "grid_x idx = (idx mod 64) mod 8
   \<and> grid_y idx = \<lfloor>(of_int (idx mod 64) :: rat) / 8\<rfloor>
   \<and> grid_x (idx + 64) = grid_x idx \<and> grid_y (idx + 64) = grid_y idx
   \<and> (grid_x 63, grid_y 63) = (7, 7)
   \<and> (grid_x 64, grid_y 64) = (0, 0)"
proof -
  have "grid_x idx = (idx mod 64) mod 8"
    by (simp add: grid_x_def UH_LED_COUNT_def UH_LED_LINE_COUNT_def)
  with grid_y_floor [of idx] grid_period [of idx] grid_63_64 show ?thesis
    by blast
qed

subsection \<open>Document loader\<close>

text \<open>
  Claim C2 says that no element of the list returned by the loader is the empty string.
  The loader tests the joined text for emptiness before the final \<^verbatim>\<open>strip()\<close>:
  two text nodes that are white space only are joined to a single blank, which is a
  non-empty string, and stripping it gives the empty string, which is appended. On the
  sample document the loader returns one speech, the empty string.
\<close>

theorem loader_keeps_blank_speech:
  "get_lines_from_xml demo_world ''play.xml'' = Inr ['''']"
  by (simp add: get_lines_from_xml_def demo_world_def str_strip_def isspace_def)

subsection \<open>Sentiment estimator\<close>

text \<open>
  Claim C3 says that a selector which is not one of two recognised values makes the
  estimator fail. It does not: the selector \<^verbatim>\<open>bogus\<close> returns the score of the VADER
  backend.
\<close>

theorem unknown_selector_returns_score:
  "get_sentiment demo_world ''To be'' ''bogus'' = Inr (Finite 0)"
  by (simp add: get_sentiment_def demo_world_def)

text \<open>
  Claim C3, amended. The estimator compares the selector with one value only: the selector
  \<^verbatim>\<open>pattern\<close> gives the result of the pattern backend, and every other selector, the
  default \<^verbatim>\<open>nltk\<close> and any unknown name alike, gives the result of the VADER backend;
  the estimator raises no error of its own.
\<close>

theorem get_sentiment_dispatch:
  "get_sentiment w text ''pattern'' = pattern_sentiment w text
   \<and> (nlp \<noteq> ''pattern'' \<longrightarrow> get_sentiment w text nlp = vader_compound w text)"
  by (simp add: get_sentiment_def)

theorem get_sentiment_dispatch_witness:
  "''nltk'' \<noteq> ''pattern''
   \<and> get_sentiment demo_world ''To be'' ''pattern'' = Inr (Finite (1 / 2))
   \<and> get_sentiment demo_world ''To be'' ''nltk'' = Inr (Finite 0)"
  using get_sentiment_dispatch [of demo_world "''To be''" "''nltk''"]
  by (simp add: demo_world_def)

subsection \<open>Text display\<close>

text \<open>
  Claim C8. \<^verbatim>\<open>_print_pixel\<close> prints exactly one symbol: \<^verbatim>\<open>+\<close> for a polarity above
  zero, \<^verbatim>\<open>-\<close> for a polarity below zero, \<^verbatim>\<open>.\<close> for a polarity equal to zero. A line
  break follows exactly when the column is 7; with the column of speech \<open>idx\<close> that is
  exactly when \<open>idx mod 8 = 7\<close>, once every 8 speeches.
\<close>

theorem print_pixel_symbol:
  "(\<exists>c. print_pixel x p s = (PrintSymbol c # (if x = 7 then [PrintNewline] else []), None)
     \<and> (float_gt p (Finite 0) \<longrightarrow> c = CHR ''+'')
     \<and> (float_lt p (Finite 0) \<longrightarrow> c = CHR ''-'')
     \<and> (float_eq p (Finite 0) \<longrightarrow> c = CHR ''.''))
   \<and> (PrintNewline \<in> set (fst (print_pixel (grid_x idx) p s))) = (idx mod 8 = 7)"
  by (cases p)
    (auto simp: print_pixel_def UH_LED_LINE_COUNT_def float_gt_def float_eq_def grid_x_mod8)

theorem print_pixel_symbol_witness:
  "float_gt (Finite (1 / 2)) (Finite 0)
   \<and> print_pixel 7 (Finite (1 / 2)) (Finite 0) = ([PrintSymbol CHR ''+'', PrintNewline], None)
   \<and> PrintNewline \<in> set (fst (print_pixel (grid_x 15) (Finite (1 / 2)) (Finite 0)))"
  using print_pixel_symbol [of 7 "Finite (1 / 2)" "Finite 0" 15]
  by (auto simp: float_gt_def)

subsection \<open>Events of a run\<close>

lemma print_pixel_events:
  "filter is_hardware (fst (print_pixel x p s)) = []
   \<and> filter is_trace (fst (print_pixel x p s)) = []
   \<and> fst (print_pixel x p s) \<noteq> [] \<and> snd (print_pixel x p s) = None"
  by (simp add: print_pixel_def)

lemma show_pixel_events:
  "filter is_trace (fst (show_pixel w x y r g b s)) = []
   \<and> (snd (show_pixel w x y r g b s) = None \<longrightarrow> fst (show_pixel w x y r g b s) \<noteq> [])"
  by (simp add: show_pixel_def)

lemma display_no_trace:
  "filter is_trace (fst (display w u idx p i s)) = []
   \<and> (snd (display w u idx p i s) = None \<longrightarrow> fst (display w u idx p i s) \<noteq> [])"
  using print_pixel_events show_pixel_events
  by (simp add: display_def split: prod.splits)

lemma display_text:
  "display w False idx p i s = print_pixel (grid_x idx) p s"
  by (simp add: display_def split: prod.splits)

lemma print_pixel_result:
  "print_pixel x p s = (evs, r) \<Longrightarrow> filter is_hardware evs = [] \<and> r = None"
  by (auto simp: print_pixel_def)

lemma process_text_text_mode:
  "filter is_hardware (fst (process_text w idx t nlp False v)) = []"
  by (auto simp: process_text_def display_text
      split: sum.splits prod.splits option.splits dest: print_pixel_result)

lemma get_sentiment_uh:
  "get_sentiment (w\<lparr>uh_imported := b\<rparr>) t nlp = get_sentiment w t nlp"
  by (simp add: get_sentiment_def)

lemma process_text_uh:
  "process_text (w\<lparr>uh_imported := b\<rparr>) idx t nlp False v = process_text w idx t nlp False v"
  by (simp add: process_text_def display_text get_sentiment_uh split: sum.splits)

lemma process_lines_text_mode:
  "filter is_hardware (fst (process_lines w idx ls nlp False v)) = []"
proof (induction ls arbitrary: idx)
  case Nil
  show ?case by simp
next
  case (Cons l ls)
  from Cons [of "idx + 1"] process_text_text_mode [of w idx l nlp v]
  show ?case
    by (auto split: prod.splits option.splits)
qed

lemma process_lines_uh:
  "process_lines (w\<lparr>uh_imported := b\<rparr>) idx ls nlp False v = process_lines w idx ls nlp False v"
  by (induction ls arbitrary: idx) (simp_all add: process_text_uh)

lemma get_lines_uh:
  "get_lines_from_xml (w\<lparr>uh_imported := b\<rparr>) path = get_lines_from_xml w path"
  by (simp add: get_lines_from_xml_def)

text \<open>
  Claim C9. With \<^verbatim>\<open>no_unicorns\<close> true a run performs no call into the LED driver:
  its trace holds no brightness, set-pixel or show event, whatever the document, the
  selector, the brightness and the verbose flag are. The run is the same whether or not
  the driver could be imported, so it does not need the driver.
\<close>

theorem no_unicorns_no_hardware:
  "filter is_hardware (fst (play w xml_path nlp brightness True verbose)) = []
   \<and> play (w\<lparr>uh_imported := False\<rparr>) xml_path nlp brightness True verbose
       = play w xml_path nlp brightness True verbose"
  using process_lines_text_mode [of w 0 _ nlp verbose]
  by (auto simp: play_def get_lines_uh process_lines_uh split: sum.splits prod.splits)

subsection \<open>Rounding to binary64\<close>

text \<open>
  The binary exponent is determined by its two bounds; rounding a quotient to an integer
  respects integer bounds; and \<open>round64\<close> of a positive number that is no larger than
  an integer below \<open>2 ^ 53\<close> stays below that integer, is exact on such integers, and
  in the normal range keeps the binary exponent.
\<close>

lemma floorlog2_rat:
  assumes "0 < n"
  shows "(2::rat) ^ floorlog 2 n \<le> 2 * of_nat n" "(of_nat n :: rat) < 2 ^ floorlog 2 n"
proof -
  from floorlog_bounds [of n 2] assms
  have lo: "2 ^ (floorlog 2 n - 1) \<le> n" and hi: "n < 2 ^ floorlog 2 n" by simp_all
  have pos: "0 < floorlog 2 n" using assms by (simp add: floorlog_def)
  then have "(2::nat) ^ floorlog 2 n = 2 * 2 ^ (floorlog 2 n - 1)"
    by (cases "floorlog 2 n") simp_all
  with lo have "(2::nat) ^ floorlog 2 n \<le> 2 * n" by simp
  then have "(of_nat (2 ^ floorlog 2 n) :: rat) \<le> of_nat (2 * n)"
    by (simp only: of_nat_le_iff)
  then show "(2::rat) ^ floorlog 2 n \<le> 2 * of_nat n" by simp
  from hi have "(of_nat n :: rat) < of_nat (2 ^ floorlog 2 n)"
    by (simp only: of_nat_less_iff)
  then show "(of_nat n :: rat) < 2 ^ floorlog 2 n" by simp
qed

lemma flog2_bounds:
  assumes "0 < a"
  shows "2 powi (flog2 a) \<le> a" and "a < 2 powi (flog2 a + 1)"
proof -
  obtain n d where q: "quotient_of a = (n, d)" by (cases "quotient_of a")
  from quotient_of_denom_pos [OF q] have d: "0 < d" .
  from quotient_of_div [OF q] have a: "a = of_int n / of_int d" .
  from assms a d have n: "0 < n" by (simp add: zero_less_divide_iff)
  define N where "N = nat n"
  define D where "D = nat d"
  define ln where "ln = floorlog 2 N"
  define ld where "ld = floorlog 2 D"
  define k where "k = int ln - int ld"
  from n d have N: "0 < N" and D: "0 < D" by (simp_all add: N_def D_def)
  have aN: "a = of_nat N / of_nat D"
    using a n d by (simp add: N_def D_def)
  have Dpos: "(0::rat) < of_nat D" using D by simp
  note bn = floorlog2_rat [OF N, folded ln_def]
  note bd = floorlog2_rat [OF D, folded ld_def]
  have pk: "(2::rat) powi k = 2 ^ ln / 2 ^ ld"
    unfolding k_def by (simp add: power_int_diff)
  have up: "a < 2 powi (k + 1)"
  proof -
    have "a * (2 ^ ld) \<le> a * (2 * of_nat D)"
      using bd(1) assms by (simp add: mult_left_mono)
    also have "\<dots> = 2 * of_nat N" using aN Dpos by simp
    also have "\<dots> < 2 * 2 ^ ln" using bn(2) by simp
    finally have "a < 2 * 2 ^ ln / 2 ^ ld"
      by (simp add: pos_less_divide_eq)
    then show ?thesis by (simp add: power_int_add pk mult.commute)
  qed
  have lo: "2 powi (k - 1) \<le> a"
  proof -
    have "2 ^ ln * of_nat D \<le> (2 * of_nat N) * (of_nat D :: rat)"
      using bn(1) Dpos by (simp add: mult_right_mono)
    also have "\<dots> \<le> (2 * of_nat N) * 2 ^ ld"
      using bd(2) by (simp add: mult_left_mono)
    finally have "2 ^ ln * of_nat D \<le> 2 * (a * of_nat D) * (2 ^ ld :: rat)"
      using aN Dpos by simp
    then have "2 ^ ln \<le> 2 * a * (2 ^ ld :: rat)"
      using Dpos by (simp add: mult.assoc mult.left_commute)
    then have "2 ^ ln / 2 ^ ld \<le> 2 * a"
      by (simp add: pos_divide_le_eq)
    then show ?thesis by (simp add: power_int_diff pk)
  qed
  have f: "flog2 a = (if 2 powi k \<le> a then k else k - 1)"
    unfolding flog2_def q k_def ln_def ld_def N_def D_def by (simp add: Let_def)
  show "2 powi (flog2 a) \<le> a" using lo by (simp add: f)
  show "a < 2 powi (flog2 a + 1)" using up by (auto simp: f)
qed

lemma flog2_eqI:
  assumes "0 < a" "2 powi E \<le> a" "a < 2 powi (E + 1)"
  shows "flog2 a = E"
proof -
  note b = flog2_bounds [OF assms(1)]
  have "\<not> E + 1 \<le> flog2 a"
  proof
    assume "E + 1 \<le> flog2 a"
    then have "(2::rat) powi (E + 1) \<le> 2 powi (flog2 a)"
      by (intro power_int_increasing) simp_all
    with b(1) assms(3) show False by simp
  qed
  moreover have "\<not> flog2 a + 1 \<le> E"
  proof
    assume "flog2 a + 1 \<le> E"
    then have "(2::rat) powi (flog2 a + 1) \<le> 2 powi E"
      by (intro power_int_increasing) simp_all
    with b(2) assms(2) show False by simp
  qed
  ultimately show ?thesis by simp
qed

lemma flog2_less:
  assumes "0 < a" "a < 2 powi E"
  shows "flog2 a < E"
proof (rule ccontr)
  assume "\<not> flog2 a < E"
  then have "(2::rat) powi E \<le> 2 powi (flog2 a)"
    by (intro power_int_increasing) simp_all
  with flog2_bounds(1) [OF assms(1)] assms(2) show False by simp
qed

lemma flog2_ge:
  assumes "0 < a" "2 powi E \<le> a"
  shows "E \<le> flog2 a"
proof (rule ccontr)
  assume "\<not> E \<le> flog2 a"
  then have "(2::rat) powi (flog2 a + 1) \<le> 2 powi E"
    by (intro power_int_increasing) simp_all
  with flog2_bounds(2) [OF assms(1)] assms(2) show False by simp
qed

lemma round_half_even_le: "q \<le> of_int n \<Longrightarrow> round_half_even q \<le> n"
proof -
  assume q: "q \<le> of_int n"
  have f: "\<lfloor>q\<rfloor> \<le> n" using q by (simp add: floor_le_iff)
  show ?thesis
  proof (cases "\<lfloor>q\<rfloor> = n")
    case True
    then have "q - of_int \<lfloor>q\<rfloor> \<le> 0" using q by simp
    then show ?thesis using True by (simp add: round_half_even_def Let_def)
  next
    case False
    with f have "\<lfloor>q\<rfloor> + 1 \<le> n" by simp
    then show ?thesis using f by (simp add: round_half_even_def Let_def)
  qed
qed

lemma round_half_even_ge: "of_int n \<le> q \<Longrightarrow> n \<le> round_half_even q"
proof -
  assume "of_int n \<le> q"
  then have "n \<le> \<lfloor>q\<rfloor>" by (simp add: le_floor_iff)
  then show ?thesis by (simp add: round_half_even_def Let_def)
qed

lemma round_half_even_of_int: "round_half_even (of_int n) = n"
  by (simp add: round_half_even_def)

lemma round_half_even_near:
  assumes "\<bar>q - of_int m\<bar> < 1 / 2"
  shows "round_half_even q = m"
proof (cases "of_int m \<le> q")
  case True
  with assms have "q < of_int m + 1" by linarith
  with True have fl: "\<lfloor>q\<rfloor> = m" by (simp add: floor_unique)
  with assms True show ?thesis by (simp add: round_half_even_def)
next
  case False
  with assms have "of_int (m - 1) \<le> q" "q < of_int (m - 1) + 1" by auto
  then have fl: "\<lfloor>q\<rfloor> = m - 1" by (rule floor_unique)
  from assms False have "1 / 2 < q - of_int (m - 1)" by auto
  with fl show ?thesis by (simp add: round_half_even_def)
qed

lemma round64_pos:
  assumes "0 < a"
  shows "round64 a =
     (let e = max (flog2 a - 52) (- 1074);
          r = of_int (round_half_even (a / 2 powi e)) * 2 powi e
      in if 2 ^ 1024 \<le> r then PosInf else Finite r)"
  using assms by (simp add: round64_def Let_def)

lemma round64_minus: "round64 (- x) = float_neg (round64 x)"
proof -
  consider "x = 0" | "0 < x" | "x < 0" by linarith
  then show ?thesis
    by cases (simp_all add: round64_def Let_def)
qed

lemma round64_upper:
  assumes a: "0 < a" and le: "a \<le> of_int M" and M: "M < 2 ^ 53"
  shows "\<exists>r. round64 a = Finite r \<and> 0 \<le> r \<and> r \<le> of_int M"
proof -
  define e where "e = max (flog2 a - 52) (- 1074)"
  define m where "m = round_half_even (a / 2 powi e)"
  define r :: rat where "r = of_int m * 2 powi e"
  have "(of_int M :: rat) < of_int (2 ^ 53)" using M by (simp only: of_int_less_iff)
  then have M': "(of_int M :: rat) < 2 ^ 53" by simp
  with le have "a < 2 powi 53" by simp
  from flog2_less [OF a this] have e0: "e \<le> 0" by (simp add: e_def)
  define j where "j = nat (- e)"
  have pe: "(2::rat) powi e = 1 / 2 ^ j"
    using e0 by (simp add: power_int_def j_def field_simps)
  have q: "a / 2 powi e = a * 2 ^ j" by (simp add: pe)
  have "a * 2 ^ j \<le> of_int M * 2 ^ j" using le by simp
  then have "a / 2 powi e \<le> of_int (M * 2 ^ j)" by (simp add: q)
  then have mle: "m \<le> M * 2 ^ j" unfolding m_def by (rule round_half_even_le)
  have "(of_int 0 :: rat) \<le> a / 2 powi e" using a by (simp add: q)
  then have m0: "0 \<le> m" unfolding m_def by (rule round_half_even_ge)
  from mle have "(of_int m :: rat) \<le> of_int (M * 2 ^ j)" by (simp only: of_int_le_iff)
  then have "of_int m / 2 ^ j \<le> (of_int M :: rat)"
    by (simp add: pos_divide_le_eq)
  then have rle: "r \<le> of_int M" by (simp add: r_def pe)
  have r0: "0 \<le> r" using m0 by (simp add: r_def)
  have "(2::rat) ^ 53 \<le> 2 ^ 1024" by (rule power_increasing) simp_all
  with rle M' have "\<not> 2 ^ 1024 \<le> r" by linarith
  then have "round64 a = Finite r"
    using a by (simp add: round64_pos Let_def e_def [symmetric] m_def [symmetric] r_def [symmetric])
  with r0 rle show ?thesis by blast
qed

lemma round64_of_int:
  assumes M0: "0 < M" and M: "M < 2 ^ 53"
  shows "round64 (of_int M) = Finite (of_int M)"
proof -
  define a :: rat where "a = of_int M"
  have a: "0 < a" using M0 by (simp add: a_def)
  define e where "e = max (flog2 a - 52) (- 1074)"
  define m where "m = round_half_even (a / 2 powi e)"
  define r :: rat where "r = of_int m * 2 powi e"
  have "(of_int M :: rat) < of_int (2 ^ 53)" using M by (simp only: of_int_less_iff)
  then have M': "a < 2 ^ 53" by (simp add: a_def)
  then have "a < 2 powi 53" by simp
  from flog2_less [OF a this] have e0: "e \<le> 0" by (simp add: e_def)
  define j where "j = nat (- e)"
  have pe: "(2::rat) powi e = 1 / 2 ^ j"
    using e0 by (simp add: power_int_def j_def field_simps)
  have "a / 2 powi e = of_int (M * 2 ^ j)" by (simp add: pe a_def)
  then have "m = M * 2 ^ j" by (simp only: m_def round_half_even_of_int)
  then have r: "r = a" by (simp add: r_def pe a_def)
  have "(2::rat) ^ 53 \<le> 2 ^ 1024" by (rule power_increasing) simp_all
  with r M' have "\<not> 2 ^ 1024 \<le> r" by linarith
  then have "round64 a = Finite r"
    using a by (simp add: round64_pos Let_def e_def [symmetric] m_def [symmetric] r_def [symmetric])
  with r show ?thesis by (simp add: a_def)
qed

lemma round64_normal:
  assumes a: "0 < a" and lo: "2 powi (- 1022) \<le> a" and hi: "a < 2 powi 1023"
  shows "\<exists>r. round64 a = Finite r \<and> 2 powi (flog2 a) \<le> r"
proof -
  define E where "E = flog2 a"
  define e where "e = E - 52"
  define m where "m = round_half_even (a / 2 powi e)"
  define r :: rat where "r = of_int m * 2 powi e"
  from flog2_ge [OF a lo] have E1: "- 1022 \<le> E" by (simp add: E_def)
  from flog2_less [OF a hi] have E2: "E < 1023" by (simp add: E_def)
  from E1 have emax: "max (flog2 a - 52) (- 1074) = e" by (simp add: e_def E_def)
  note b = flog2_bounds [OF a, folded E_def]
  have pe: "(2::rat) powi E = 2 ^ 52 * 2 powi e"
    by (simp add: e_def power_int_diff)
  have pe1: "(2::rat) powi (E + 1) = 2 ^ 53 * 2 powi e"
    by (simp add: pe power_int_add)
  have pos: "(0::rat) < 2 powi e" by simp
  from b(1) have "2 ^ 52 * 2 powi e \<le> a" by (simp add: pe)
  then have "(2::rat) ^ 52 \<le> a / 2 powi e" using pos by (simp add: pos_le_divide_eq)
  then have "(of_int (2 ^ 52) :: rat) \<le> a / 2 powi e" by simp
  then have m1: "2 ^ 52 \<le> m" unfolding m_def by (rule round_half_even_ge)
  from b(2) have "a < 2 ^ 53 * 2 powi e" by (simp add: pe1)
  then have "a / 2 powi e < 2 ^ 53" using pos by (simp add: pos_divide_less_eq)
  then have "a / 2 powi e \<le> of_int (2 ^ 53)" by simp
  then have m2: "m \<le> 2 ^ 53" unfolding m_def by (rule round_half_even_le)
  from m1 have "(of_int (2 ^ 52) :: rat) \<le> of_int m" by (simp only: of_int_le_iff)
  then have "(2::rat) ^ 52 * 2 powi e \<le> of_int m * 2 powi e"
    using pos by (simp add: mult_right_mono)
  then have r1: "2 powi E \<le> r" by (simp add: r_def pe)
  from m2 have "(of_int m :: rat) \<le> of_int (2 ^ 53)" by (simp only: of_int_le_iff)
  then have "of_int m * 2 powi e \<le> (2::rat) ^ 53 * 2 powi e"
    using pos by (simp add: mult_right_mono)
  then have r2: "r \<le> 2 powi (E + 1)" by (simp add: r_def pe1)
  have "(2::rat) powi (E + 1) \<le> 2 powi 1023"
    using E2 by (intro power_int_increasing) simp_all
  moreover have "(2::rat) ^ 1023 < 2 ^ 1024" by (rule power_strict_increasing) simp_all
  ultimately have "\<not> 2 ^ 1024 \<le> r" using r2 by simp
  then have "round64 a = Finite r"
    using a by (simp add: round64_pos Let_def emax m_def [symmetric] r_def [symmetric])
  with r1 show ?thesis by (auto simp: E_def)
qed

lemma round64_near:
  assumes a: "0 < a" and lo: "2 powi E \<le> a" and hi: "a < 2 powi (E + 1)"
    and E: "- 1022 \<le> E"
    and m: "\<bar>a / 2 powi (E - 52) - of_int m\<bar> < 1 / 2"
    and fin: "of_int m * 2 powi (E - 52) < (2::rat) ^ 1024"
  shows "round64 a = Finite (of_int m * 2 powi (E - 52))"
proof -
  from flog2_eqI [OF a lo hi] have f: "flog2 a = E" .
  with E have emax: "max (flog2 a - 52) (- 1074) = E - 52" by simp
  from round_half_even_near [OF m] fin show ?thesis
    using a by (simp add: round64_pos Let_def emax)
qed

lemma round64_fifth: "round64 (1 / 5) = Finite (3602879701896397 / 18014398509481984)"
  using round64_near [of "1 / 5" "- 3" 7205759403792794] by simp

lemma round64_fifth_255:
  "round64 (3602879701896397 / 18014398509481984 * 255) = Finite 51"
  using round64_near [of "3602879701896397 / 18014398509481984 * 255" 5 7177611906121728]
  by simp

lemma round64_half_255: "round64 (1 / 2 * 255) = Finite (255 / 2)"
  using round64_near [of "1 / 2 * 255" 6 8972014882652160] by simp

subsection \<open>Intensity and colour\<close>

lemma intensity_finite:
  "intensity (Finite x) = py_int (math_ceil (round64 (\<bar>x\<bar> * 255)))"
  by (simp add: intensity_def LIGHT_def)

lemma exact_ceiling_fifth:
  "\<lceil>(3602879701896397 / 18014398509481984 * 255 :: rat)\<rceil> = 52"
  by (rule ceiling_unique) simp_all

lemma intensity_half: "intensity (Finite (1 / 2)) = Inr 128"
proof -
  have "\<lceil>(255 / 2 :: rat)\<rceil> = 128" by (rule ceiling_unique) simp_all
  moreover have "\<bar>1 / 2\<bar> * 255 = (1 / 2 * 255 :: rat)" by simp
  then have "intensity (Finite (1 / 2)) = py_int (math_ceil (Finite (255 / 2)))"
    by (simp only: intensity_finite round64_half_255)
  ultimately show ?thesis by simp
qed

lemma intensity_zero: "intensity (Finite 0) = Inr 0"
  by (simp add: intensity_finite round64_def)

lemma intensity_minus_half: "intensity (Finite (- (1 / 2))) = Inr 128"
proof -
  have "\<lceil>(255 / 2 :: rat)\<rceil> = 128" by (rule ceiling_unique) simp_all
  moreover have "\<bar>- (1 / 2)\<bar> * 255 = (1 / 2 * 255 :: rat)" by simp
  then have "intensity (Finite (- (1 / 2))) = py_int (math_ceil (Finite (255 / 2)))"
    by (simp only: intensity_finite round64_half_255)
  ultimately show ?thesis by simp
qed

lemma intensity_range_aux:
  assumes "\<bar>x\<bar> \<le> 1"
  shows "\<exists>i. intensity (Finite x) = Inr i \<and> 0 \<le> i \<and> i \<le> 255"
proof (cases "x = 0")
  case True
  then show ?thesis by (simp add: intensity_finite round64_def)
next
  case False
  then have a: "0 < \<bar>x\<bar> * 255" by simp
  from assms have "\<bar>x\<bar> * 255 \<le> of_int 255" by simp
  from round64_upper [OF a this] obtain r
    where r: "round64 (\<bar>x\<bar> * 255) = Finite r" "0 \<le> r" "r \<le> 255" by auto
  from r(2) have c0: "0 \<le> \<lceil>r\<rceil>" by (simp add: le_ceiling_iff) 
  from r(3) have c1: "\<lceil>r\<rceil> \<le> 255" by (simp add: ceiling_le_iff)
  from c0 c1 show ?thesis by (simp add: intensity_finite r(1))
qed

text \<open>
  Claim C1. For every polarity \<open>p\<close> whose intensity \<open>i\<close> is computed (line 57), the
  colour is \<open>(0, 0, 0)\<close> when \<open>p\<close> equals \<open>0.0\<close>, \<open>(255 - i, 0, 255)\<close> when
  \<open>p\<close> is above \<open>0.0\<close> and \<open>(255, 0, 255 - i)\<close> when \<open>p\<close> is below \<open>0.0\<close>.
\<close>

theorem colour_rule:
  assumes "intensity p = Inr i"
  shows "(float_eq p (Finite 0) \<longrightarrow> get_colour p i = (0, 0, 0))
   \<and> (float_gt p (Finite 0) \<longrightarrow> get_colour p i = (255 - i, 0, 255))
   \<and> (float_lt p (Finite 0) \<longrightarrow> get_colour p i = (255, 0, 255 - i))"
  by (cases p) (auto simp: get_colour_def LIGHT_def float_gt_def float_eq_def)

theorem colour_rule_witness:
  "intensity (Finite 0) = Inr 0 \<and> float_eq (Finite 0) (Finite 0)
     \<and> get_colour (Finite 0) 0 = (0, 0, 0)
   \<and> intensity (Finite (1 / 2)) = Inr 128 \<and> float_gt (Finite (1 / 2)) (Finite 0)
     \<and> get_colour (Finite (1 / 2)) 128 = (127, 0, 255)
   \<and> intensity (Finite (- (1 / 2))) = Inr 128 \<and> float_lt (Finite (- (1 / 2))) (Finite 0)
     \<and> get_colour (Finite (- (1 / 2))) 128 = (255, 0, 127)"
  using colour_rule [OF intensity_zero] colour_rule [OF intensity_half]
    colour_rule [OF intensity_minus_half]
  by (simp add: intensity_zero intensity_half intensity_minus_half float_eq_def float_gt_def)

text \<open>
  Claim C5. For every finite polarity of magnitude at most \<open>1.0\<close> the intensity is
  computed without error and is an integer from 0 to 255, and each of the three colour
  channels is an integer from 0 to 255. The product \<^verbatim>\<open>abs(polarity) * LIGHT\<close> is the
  rounded one.
\<close>

theorem intensity_range:
  assumes "\<bar>x\<bar> \<le> 1"
  shows "\<exists>i. intensity (Finite x) = Inr i \<and> 0 \<le> i \<and> i \<le> 255
     \<and> (case get_colour (Finite x) i of
          (r, g, b) \<Rightarrow> 0 \<le> r \<and> r \<le> 255 \<and> 0 \<le> g \<and> g \<le> 255 \<and> 0 \<le> b \<and> b \<le> 255)"
proof -
  from intensity_range_aux [OF assms] obtain i
    where i: "intensity (Finite x) = Inr i" "0 \<le> i" "i \<le> 255" by auto
  from i(2,3) have
    "case get_colour (Finite x) i of
       (r, g, b) \<Rightarrow> 0 \<le> r \<and> r \<le> 255 \<and> 0 \<le> g \<and> g \<le> 255 \<and> 0 \<le> b \<and> b \<le> 255"
    by (simp add: get_colour_def LIGHT_def)
  with i show ?thesis by (intro exI [of _ i] conjI)
qed

theorem intensity_range_witness:
  "\<bar>1 / 2 :: rat\<bar> \<le> 1 \<and> intensity (Finite (1 / 2)) = Inr 128
   \<and> get_colour (Finite (1 / 2)) 128 = (127, 0, 255)"
  using intensity_range [of "1 / 2"]
  by (simp add: intensity_half get_colour_def float_eq_def float_gt_def LIGHT_def)

text \<open>
  Claim C6. The polarity \<^verbatim>\<open>-0.2\<close> is the float nearest to \<open>- 1 / 5\<close>. Its product with
  \<open>255\<close> rounds to exactly \<open>51.0\<close>, so the intensity is 51 and the colour is
  \<open>(255, 0, 204)\<close>. (The exact product is slightly above 51, see
  \<open>exact_ceiling_fifth\<close>: the result depends on the rounding of the product.)
\<close>

theorem intensity_minus_fifth:
  "round64 (- (1 / 5)) = Finite (- (3602879701896397 / 18014398509481984))
   \<and> intensity (round64 (- (1 / 5))) = Inr 51
   \<and> get_colour (round64 (- (1 / 5))) 51 = (255, 0, 204)"
proof -
  have r: "round64 (- (1 / 5)) = Finite (- (3602879701896397 / 18014398509481984))"
    by (simp only: round64_minus round64_fifth float_neg.simps)
  have "\<bar>- (3602879701896397 / 18014398509481984)\<bar> * 255
      = (3602879701896397 / 18014398509481984 * 255 :: rat)" by simp
  then have "intensity (round64 (- (1 / 5))) = py_int (math_ceil (Finite 51))"
    by (simp only: r intensity_finite round64_fifth_255)
  then have i: "intensity (round64 (- (1 / 5))) = Inr 51" by simp
  have c: "get_colour (round64 (- (1 / 5))) 51 = (255, 0, 204)"
    by (simp add: r get_colour_def float_eq_def float_gt_def LIGHT_def)
  from r i c show ?thesis by blast
qed

subsection \<open>Delay\<close>

lemma py_float_small:
  assumes "0 \<le> n" "n < 2 ^ 53"
  shows "py_float n = Inr (Finite (of_int n))"
proof (cases "n = 0")
  case True
  then show ?thesis by (simp add: py_float_def round64_def)
next
  case False
  with assms have "0 < n" by simp
  from round64_of_int [OF this assms(2)] show ?thesis by (simp add: py_float_def)
qed

lemma get_speed_small:
  assumes "length (str_split t) < 2 ^ 53"
  shows "get_speed t = Inr (round64 (of_nat (length (str_split t)) / 120))"
proof -
  from assms have "int (length (str_split t)) < 2 ^ 53"
    by (metis of_nat_less_iff of_nat_numeral of_nat_power)
  then have "py_float (int (length (str_split t))) = Inr (Finite (of_nat (length (str_split t))))"
    using py_float_small [of "int (length (str_split t))"] by simp
  then show ?thesis
    by (simp add: get_speed_def WORDS_PER_MINUTE_def Let_def)
qed

lemma round64_quotient_pos:
  assumes "0 < n" "n < (2::nat) ^ 53"
  shows "\<exists>d. round64 (of_nat n / 120) = Finite d \<and> 0 < d"
proof -
  define a :: rat where "a = of_nat n / 120"
  have a: "0 < a" using assms(1) by (simp add: a_def)
  have "(1::rat) \<le> of_nat n" using assms(1) by simp
  then have "(1::rat) / 128 \<le> a" by (simp add: a_def)
  moreover have "(2::rat) powi (- 1022) \<le> 2 powi (- 7)"
    by (intro power_int_increasing) simp_all
  ultimately have lo: "2 powi (- 1022) \<le> a" by simp
  have "(of_nat n :: rat) < of_nat (2 ^ 53)" using assms(2) by (simp only: of_nat_less_iff)
  then have "a < 2 ^ 53" by (simp add: a_def)
  moreover have "(2::rat) ^ 53 \<le> 2 ^ 1023" by (rule power_increasing) simp_all
  ultimately have hi: "a < 2 powi 1023" by simp
  from round64_normal [OF a lo hi] obtain r
    where r: "round64 a = Finite r" "2 powi (flog2 a) \<le> r" by auto
  have "(0::rat) < 2 powi (flog2 a)" by simp
  with r(2) have "0 < r" by linarith
  with r(1) show ?thesis by (auto simp: a_def)
qed

lemma round64_fortieth:
  "round64 (1 / 40) = Finite (3602879701896397 / 144115188075855872)"
  using round64_near [of "1 / 40" "- 6" 7205759403792794] by simp

lemma split_love: "str_split ''I love this'' = [''I'', ''love'', ''this'']"
  by (simp add: str_split_def isspace_def)

lemma get_speed_love:
  "get_speed ''I love this'' = Inr (Finite (3602879701896397 / 144115188075855872))"
  using get_speed_small [of "''I love this''"] by (simp add: split_love round64_fortieth)

lemma split_blank: "str_split t = [] \<longleftrightarrow> list_all isspace t"
proof -
  have "split_from w s = [] \<longleftrightarrow> w = [] \<and> list_all isspace s" for w s
    by (induction s arbitrary: w) auto
  then show ?thesis by (simp add: str_split_def)
qed

text \<open>
  Claim C7. For every text with fewer than \<open>2 ^ 53\<close> words (every count up to there is
  a float), the delay is the float quotient of the number of words and \<open>120\<close>, that is
  the correctly rounded value of \<open>count / 120\<close>; it is never negative, and it is zero
  exactly when the text has no words.
\<close>

theorem get_speed_delay:
  assumes "length (str_split t) < 2 ^ 53"
  shows "\<exists>d. get_speed t = Inr (Finite d)
     \<and> round64 (of_nat (length (str_split t)) / 120) = Finite d
     \<and> 0 \<le> d \<and> (d = 0 \<longleftrightarrow> str_split t = [])"
proof (cases "str_split t = []")
  case True
  then show ?thesis
    using get_speed_small [OF assms] by (simp add: round64_def)
next
  case False
  then have "0 < length (str_split t)" by simp
  from round64_quotient_pos [OF this assms] obtain d
    where d: "round64 (of_nat (length (str_split t)) / 120) = Finite d" "0 < d" by auto
  with False get_speed_small [OF assms] show ?thesis by simp
qed

theorem get_speed_delay_witness:
  "length (str_split ''I love this'') < 2 ^ 53
   \<and> get_speed ''I love this'' = Inr (Finite (3602879701896397 / 144115188075855872))
   \<and> (0::rat) \<le> 3602879701896397 / 144115188075855872
   \<and> str_split ''I love this'' \<noteq> []"
  using get_speed_delay [of "''I love this''"]
  by (simp add: split_love get_speed_love)

subsection \<open>Order of display and trace\<close>

text \<open>
  Claim C10. The events of \<^verbatim>\<open>_process_text\<close> for one speech are the display output
  (pixel write, show and sleep, or the printed symbol) followed by the verbose line: the
  display part holds no verbose line and is not empty when the call returns, and the
  verbose lines of the call, exactly one when \<^verbatim>\<open>verbose\<close> is set and the call returns
  and none otherwise, come after it.
\<close>

theorem trace_after_display:
  assumes "process_text w idx text nlp unicorns verbose = (evs, r)"
  shows "\<exists>d t. evs = d @ t \<and> filter is_trace d = [] \<and> (r = None \<longrightarrow> d \<noteq> [])
           \<and> t = filter is_trace evs
           \<and> length t = (if verbose \<and> r = None then 1 else 0)"
proof (cases "get_sentiment w text nlp")
  case (Inl e)
  with assms show ?thesis by (auto simp: process_text_def)
next
  case p: (Inr polarity)
  show ?thesis
  proof (cases "intensity polarity")
    case (Inl e)
    with assms p show ?thesis by (auto simp: process_text_def)
  next
    case i: (Inr i)
    show ?thesis
    proof (cases "get_speed text")
      case (Inl e)
      with assms p i show ?thesis by (auto simp: process_text_def)
    next
      case s: (Inr speed)
      obtain d e where d: "display w unicorns idx polarity i speed = (d, e)"
        by (cases "display w unicorns idx polarity i speed")
      from display_no_trace [of w unicorns idx polarity i speed] d
      have nt: "filter is_trace d = []" and ne: "e = None \<longrightarrow> d \<noteq> []"
        by simp_all
      show ?thesis
      proof (cases e)
        case None
        with assms p i s d have
          "evs = d @ (if verbose then [PrintTrace idx text polarity i speed] else [])" "r = None"
          by (simp_all add: process_text_def)
        with nt ne None show ?thesis by auto
      next
        case (Some err)
        with assms p i s d have "evs = d" "r = Some err"
          by (simp_all add: process_text_def)
        with nt show ?thesis by auto
      qed
    qed
  qed
qed

lemma process_text_love:
  "process_text demo_world 0 ''I love this'' ''pattern'' False True =
     ([PrintSymbol CHR ''+'',
       PrintTrace 0 ''I love this'' (Finite (1 / 2)) 128
         (Finite (3602879701896397 / 144115188075855872))], None)"
  by (simp add: process_text_def get_sentiment_def demo_world_def intensity_half
      get_speed_love display_text print_pixel_def float_gt_def grid_x_mod8
      UH_LED_LINE_COUNT_def)

theorem trace_after_display_witness:
  "process_text demo_world 0 ''I love this'' ''pattern'' False True =
     ([PrintSymbol CHR ''+'',
       PrintTrace 0 ''I love this'' (Finite (1 / 2)) 128
         (Finite (3602879701896397 / 144115188075855872))], None)
   \<and> (\<exists>d t. [PrintSymbol CHR ''+'',
         PrintTrace 0 ''I love this'' (Finite (1 / 2)) 128
           (Finite (3602879701896397 / 144115188075855872))] = d @ t
        \<and> filter is_trace d = [] \<and> d \<noteq> [] \<and> length t = 1)"
proof -
  let ?E = "[PrintSymbol CHR ''+'',
         PrintTrace 0 ''I love this'' (Finite (1 / 2)) 128
           (Finite (3602879701896397 / 144115188075855872))]"
  from trace_after_display [OF process_text_love] obtain d t
    where h: "?E = d @ t \<and> filter is_trace d = [] \<and> ((None :: error option) = None \<longrightarrow> d \<noteq> [])
      \<and> t = filter is_trace ?E
      \<and> length t = (if True \<and> (None :: error option) = None then 1 else 0)"
    by blast
  from h have a: "?E = d @ t" and b: "filter is_trace d = []" and c: "d \<noteq> []"
    by blast+
  from h have "length t = (if True \<and> (None :: error option) = None then 1 else 0)"
    by blast
  then have e: "length t = 1" by simp
  from process_text_love a b c e show ?thesis by blast
qed

end
